theory Spec2Isabelle
  imports Main "HOL-Library.Char_ord" "HOL-Library.List_Lexorder"
begin

section \<open>The tasks table\<close>

text \<open>
  One row of the table \<^verbatim>\<open>tasks\<close> created by \<^verbatim>\<open>init_db\<close>. The columns
  \<^verbatim>\<open>description\<close>, \<^verbatim>\<open>due_date\<close>, \<^verbatim>\<open>priority\<close>, \<^verbatim>\<open>category\<close> and \<^verbatim>\<open>status\<close> are
  nullable TEXT columns (\<open>None\<close> is SQL NULL); \<^verbatim>\<open>title\<close> is TEXT NOT NULL;
  \<^verbatim>\<open>created_at\<close> is filled by the database with CURRENT_TIMESTAMP, a text of the form
  YYYY-MM-DD HH:MM:SS. Texts are compared byte by byte, as SQLite's BINARY collation does:
  this is the lexicographic order on \<open>string\<close>. The column \<^verbatim>\<open>id\<close> is called \<open>id_col\<close>
  here.
\<close>

record task =
  id_col :: nat
  title :: string
  description :: "string option"
  due_date :: "string option"
  priority :: "string option"
  category :: "string option"
  status :: "string option"
  created_at :: string
  user_id :: nat

text \<open>
  The database: the rows in rowid order, and the counter that AUTOINCREMENT keeps in
  \<^verbatim>\<open>sqlite_sequence\<close> (the largest rowid ever handed out).
\<close>

record db =
  rows :: "task list"
  seq :: nat

section \<open>JSON payloads and the Python operations applied to them\<close>

text \<open>
  What \<^verbatim>\<open>request.json\<close> can hold. Floating-point numbers are left out. A JSON object is
  an association list whose first binding of a key is the one in force.
\<close>

datatype json =
    JNull
  | JBool bool
  | JInt int
  | JStr string
  | JArr "json list"
  | JObj "(string \<times> json) list"

datatype exn =
    TypeError
  | KeyError
  | AttributeError
  | OverflowError
  | InterfaceError
  | IntegrityError

text \<open>Python's truth value of a payload, as tested by \<^verbatim>\<open>not data\<close>.\<close>

fun truthy :: "json \<Rightarrow> bool" where
  "truthy JNull = False"
| "truthy (JBool b) = b"
| "truthy (JInt n) = (n \<noteq> 0)"
| "truthy (JStr s) = (s \<noteq> [])"
| "truthy (JArr xs) = (xs \<noteq> [])"
| "truthy (JObj kvs) = (kvs \<noteq> [])"

text \<open>Whether \<open>ys\<close> occurs in \<open>xs\<close> as a contiguous block (Python's \<^verbatim>\<open>in\<close> on str).\<close>

fun is_prefix :: "'a list \<Rightarrow> 'a list \<Rightarrow> bool" where
  "is_prefix [] ys = True"
| "is_prefix (x # xs) [] = False"
| "is_prefix (x # xs) (y # ys) = (x = y \<and> is_prefix xs ys)"

fun substring :: "'a list \<Rightarrow> 'a list \<Rightarrow> bool" where
  "substring ys [] = (ys = [])"
| "substring ys (x # xs) = (is_prefix ys (x # xs) \<or> substring ys xs)"

text \<open>\<^verbatim>\<open>key in data\<close>: a key of a dict, an element of a list, a substring of a str;
  a TypeError on None, a bool or an int.\<close>

fun py_in :: "string \<Rightarrow> json \<Rightarrow> exn + bool" where
  "py_in k (JObj kvs) = Inr (k \<in> set (map fst kvs))"
| "py_in k (JArr xs) = Inr (JStr k \<in> set xs)"
| "py_in k (JStr s) = Inr (substring k s)"
| "py_in k j = Inl TypeError"

text \<open>\<^verbatim>\<open>len(data)\<close>: the number of keys of a dict.\<close>

fun py_len :: "json \<Rightarrow> exn + nat" where
  "py_len (JObj kvs) = Inr (length (remdups (map fst kvs)))"
| "py_len (JArr xs) = Inr (length xs)"
| "py_len (JStr s) = Inr (length s)"
| "py_len j = Inl TypeError"

text \<open>\<^verbatim>\<open>data[key]\<close> with a str key: KeyError on a dict without the key, TypeError on
  anything that is not a dict.\<close>

fun py_getitem :: "json \<Rightarrow> string \<Rightarrow> exn + json" where
  "py_getitem (JObj kvs) k = (case map_of kvs k of None \<Rightarrow> Inl KeyError | Some v \<Rightarrow> Inr v)"
| "py_getitem j k = Inl TypeError"

text \<open>\<^verbatim>\<open>data.get(key, default)\<close>: only a dict has the method.\<close>

fun py_get :: "json \<Rightarrow> string \<Rightarrow> json \<Rightarrow> exn + json" where
  "py_get (JObj kvs) k d = Inr (case map_of kvs k of None \<Rightarrow> d | Some v \<Rightarrow> v)"
| "py_get j k d = Inl AttributeError"

section \<open>Binding parameters and storing them in TEXT columns\<close>

datatype sqlval = Null | Integer int | Text string

text \<open>
  How \<^verbatim>\<open>sqlite3\<close> adapts a Python value passed as a query parameter: None is NULL, a
  bool is the integer 0 or 1, an int must fit 64 bits, a str is text, and a list or a dict
  cannot be bound.
\<close>

fun bind_param :: "json \<Rightarrow> exn + sqlval" where
  "bind_param JNull = Inr Null"
| "bind_param (JBool b) = Inr (Integer (if b then 1 else 0))"
| "bind_param (JInt n) =
     (if - (2 ^ 63) \<le> n \<and> n < 2 ^ 63 then Inr (Integer n) else Inl OverflowError)"
| "bind_param (JStr s) = Inr (Text s)"
| "bind_param (JArr xs) = Inl InterfaceError"
| "bind_param (JObj kvs) = Inl InterfaceError"

fun bind_params :: "json list \<Rightarrow> exn + sqlval list" where
  "bind_params [] = Inr []"
| "bind_params (j # js) =
     (case bind_param j of
        Inl e \<Rightarrow> Inl e
      | Inr v \<Rightarrow> (case bind_params js of Inl e \<Rightarrow> Inl e | Inr vs \<Rightarrow> Inr (v # vs)))"

text \<open>The decimal text of an integer, which is what a TEXT column keeps of it.\<close>

function text_of_nat :: "nat \<Rightarrow> string" where
  "text_of_nat n =
     (if n < 10 then [''0123456789'' ! n]
      else text_of_nat (n div 10) @ [''0123456789'' ! (n mod 10)])"
  by pat_completeness auto
termination
  by (relation "measure (\<lambda>n. n)") auto

definition text_of_int :: "int \<Rightarrow> string" where
  "text_of_int i = (if i < 0 then CHR ''-'' # text_of_nat (nat (- i)) else text_of_nat (nat i))"

text \<open>TEXT affinity: NULL stays NULL, a number is converted to its text.\<close>

fun text_affinity :: "sqlval \<Rightarrow> string option" where
  "text_affinity Null = None"
| "text_affinity (Integer i) = Some (text_of_int i)"
| "text_affinity (Text s) = Some s"

section \<open>WHERE clauses\<close>

text \<open>
  The conditions the queries of the program are built from. A comparison with NULL is
  NULL (\<open>None\<close>), and a row is selected when the clause evaluates to true.
\<close>

datatype text_column = Category | Priority | Status

datatype clause =
    Id_eq nat
  | User_id_eq nat
  | Col_eq text_column string
  | Col_ne text_column string
  | And clause clause

fun column :: "text_column \<Rightarrow> task \<Rightarrow> string option" where
  "column Category r = category r"
| "column Priority r = priority r"
| "column Status r = status r"

fun sql_and :: "bool option \<Rightarrow> bool option \<Rightarrow> bool option" where
  "sql_and (Some False) b = Some False"
| "sql_and a (Some False) = Some False"
| "sql_and (Some True) (Some True) = Some True"
| "sql_and a b = None"

fun eval_clause :: "clause \<Rightarrow> task \<Rightarrow> bool option" where
  "eval_clause (Id_eq i) r = Some (id_col r = i)"
| "eval_clause (User_id_eq u) r = Some (user_id r = u)"
| "eval_clause (Col_eq c v) r = (case column c r of None \<Rightarrow> None | Some x \<Rightarrow> Some (x = v))"
| "eval_clause (Col_ne c v) r = (case column c r of None \<Rightarrow> None | Some x \<Rightarrow> Some (x \<noteq> v))"
| "eval_clause (And p q) r = sql_and (eval_clause p r) (eval_clause q r)"

definition selected :: "clause \<Rightarrow> task \<Rightarrow> bool" where
  "selected q r = (eval_clause q r = Some True)"

section \<open>ORDER BY COALESCE(due_date, '9999-12-31') ASC, created_at DESC\<close>

definition coalesce_due :: "task \<Rightarrow> string" where
  "coalesce_due r = (case due_date r of None \<Rightarrow> ''9999-12-31'' | Some d \<Rightarrow> d)"

definition row_le :: "task \<Rightarrow> task \<Rightarrow> bool" where
  "row_le a b =
     (coalesce_due a < coalesce_due b \<or>
      (coalesce_due a = coalesce_due b \<and> created_at b \<le> created_at a))"

text \<open>The sort, as a stable insertion sort: rows that tie on both keys keep the order
  they have in the table.\<close>

fun insort_row :: "task \<Rightarrow> task list \<Rightarrow> task list" where
  "insort_row x [] = [x]"
| "insort_row x (y # ys) = (if row_le x y then x # y # ys else y # insort_row x ys)"

definition order_by :: "task list \<Rightarrow> task list" where
  "order_by xs = foldr insort_row xs []"

section \<open>The routes\<close>

text \<open>
  In every route \<open>uid\<close> is \<^verbatim>\<open>current_user.id\<close>, the rowid of the logged-in user in the
  table \<^verbatim>\<open>users\<close>: it has been read from the database, so binding it as a parameter
  cannot fail. A task id comes from the URL, where the converter \<^verbatim>\<open><int:task_id>\<close>
  accepts any run of digits: binding it can fail.
\<close>

text \<open>\<^verbatim>\<open>request.args.get(key, default)\<close>.\<close>

definition args_get :: "(string \<rightharpoonup> string) \<Rightarrow> string \<Rightarrow> string \<Rightarrow> string" where
  "args_get args k d = (case args k of None \<Rightarrow> d | Some v \<Rightarrow> v)"

text \<open>The status condition that \<^verbatim>\<open>get_tasks\<close> appends to its query.\<close>

definition status_clause :: "string \<Rightarrow> clause" where
  "status_clause status_filter =
     (if status_filter = ''deleted'' then Col_eq Status ''deleted''
      else if status_filter = ''pending'' then Col_eq Status ''pending''
      else if status_filter = ''completed'' then Col_eq Status ''completed''
      else Col_ne Status ''deleted'')"

text \<open>GET /api/tasks, for the logged-in user \<open>uid\<close>: the rows that \<^verbatim>\<open>jsonify\<close> sends.\<close>

definition get_tasks :: "nat \<Rightarrow> (string \<rightharpoonup> string) \<Rightarrow> db \<Rightarrow> task list" where
  "get_tasks uid args d =
     (let status_filter = args_get args ''filter'' ''all'';
          category_filter = args_get args ''category_filter'' ''all'';
          priority_filter = args_get args ''priority_filter'' ''all'';
          q0 = User_id_eq uid;
          q1 = And q0 (status_clause status_filter);
          q2 = (if category_filter \<noteq> ''all'' then And q1 (Col_eq Category category_filter)
                else q1);
          q3 = (if priority_filter \<noteq> ''all'' then And q2 (Col_eq Priority priority_filter)
                else q2)
      in order_by (filter (selected q3) (rows d)))"

text \<open>The spec's List(owner, status_filter, category_filter, priority_filter): the
  request that carries the three filters.\<close>

definition list_tasks :: "nat \<Rightarrow> string \<Rightarrow> string \<Rightarrow> string \<Rightarrow> db \<Rightarrow> task list" where
  "list_tasks owner status_filter category_filter priority_filter d =
     get_tasks owner
       [''filter'' \<mapsto> status_filter, ''category_filter'' \<mapsto> category_filter,
        ''priority_filter'' \<mapsto> priority_filter] d"

text \<open>GET /api/alltasks.\<close>

definition get_all_tasks :: "nat \<Rightarrow> db \<Rightarrow> task list" where
  "get_all_tasks uid d = order_by (filter (selected (User_id_eq uid)) (rows d))"

section \<open>Responses\<close>

text \<open>
  What a view returns: \<open>Response body code\<close> is \<^verbatim>\<open>jsonify(body), code\<close>, where
  \<open>Success\<close> is the object \<^verbatim>\<open>{'success': True}\<close>, \<open>Error_invalid\<close> is the object
  whose \<^verbatim>\<open>error\<close> is the fixed message of invalid data, and \<open>Error_str e\<close> is
  \<^verbatim>\<open>{'error': str(e)}\<close>. \<open>Unhandled e\<close> is an exception that leaves the view; nothing
  is committed then.
\<close>

datatype body = Success | Error_invalid | Error_str exn

datatype response = Response body nat | Unhandled exn

text \<open>Evaluating the elements of a tuple from left to right: the first exception wins.\<close>

fun collect :: "(exn + 'a) list \<Rightarrow> exn + 'a list" where
  "collect [] = Inr []"
| "collect (m # ms) =
     (case m of
        Inl e \<Rightarrow> Inl e
      | Inr v \<Rightarrow> (case collect ms of Inl e \<Rightarrow> Inl e | Inr vs \<Rightarrow> Inr (v # vs)))"

subsection \<open>POST /api/tasks\<close>

text \<open>The rowid AUTOINCREMENT gives to a new row: one more than the largest rowid the
  table has ever held.\<close>

definition next_id :: "db \<Rightarrow> nat" where
  "next_id d = Suc (fold max (map id_col (rows d)) (seq d))"

text \<open>The INSERT statement with its six bound values (the seventh is the user's id),
  at the time \<open>now\<close> of CURRENT_TIMESTAMP. A NULL title violates NOT NULL.\<close>

fun insert_task :: "sqlval list \<Rightarrow> nat \<Rightarrow> string \<Rightarrow> db \<Rightarrow> exn + db" where
  "insert_task [t, de, du, p, c, s] uid now d =
     (case text_affinity t of
        None \<Rightarrow> Inl IntegrityError
      | Some ti \<Rightarrow>
          Inr \<lparr>rows = rows d @
                 [\<lparr>id_col = next_id d, title = ti, description = text_affinity de,
                   due_date = text_affinity du, priority = text_affinity p,
                   category = text_affinity c, status = text_affinity s,
                   created_at = now, user_id = uid\<rparr>],
               seq = next_id d\<rparr>)"
| "insert_task vs uid now d = Inl InterfaceError"

definition create_values :: "json \<Rightarrow> exn + json list" where
  "create_values data =
     collect [py_getitem data ''title'',
              py_get data ''description'' (JStr []),
              py_get data ''due_date'' JNull,
              py_get data ''priority'' (JStr ''important''),
              py_get data ''category'' (JStr ''personnel''),
              py_get data ''status'' (JStr ''pending'')]"

definition create_task :: "nat \<Rightarrow> string \<Rightarrow> json \<Rightarrow> db \<Rightarrow> response \<times> db" where
  "create_task uid now data d =
     (if \<not> truthy data then (Response Error_invalid 400, d)
      else case py_in ''title'' data of
        Inl e \<Rightarrow> (Response (Error_str e) 500, d)
      | Inr False \<Rightarrow> (Response Error_invalid 400, d)
      | Inr True \<Rightarrow>
          (case create_values data of
             Inl e \<Rightarrow> (Response (Error_str e) 500, d)
           | Inr js \<Rightarrow>
               (case bind_params js of
                  Inl e \<Rightarrow> (Response (Error_str e) 500, d)
                | Inr vs \<Rightarrow>
                    (case insert_task vs uid now d of
                       Inl e \<Rightarrow> (Response (Error_str e) 500, d)
                     | Inr d' \<Rightarrow> (Response Success 201, d')))))"

subsection \<open>PUT /api/tasks/<task_id>\<close>

text \<open>\<^verbatim>\<open>'status' in data and len(data) == 1\<close>.\<close>

definition status_only :: "json \<Rightarrow> exn + bool" where
  "status_only data =
     (case py_in ''status'' data of
        Inl e \<Rightarrow> Inl e
      | Inr False \<Rightarrow> Inr False
      | Inr True \<Rightarrow> (case py_len data of Inl e \<Rightarrow> Inl e | Inr n \<Rightarrow> Inr (n = 1)))"

definition own_task :: "nat \<Rightarrow> nat \<Rightarrow> clause" where
  "own_task task_id uid = And (Id_eq task_id) (User_id_eq uid)"

text \<open>An UPDATE statement: the rows the WHERE clause selects get the assignment \<open>f\<close>.\<close>

definition update_where :: "clause \<Rightarrow> (task \<Rightarrow> task) \<Rightarrow> db \<Rightarrow> db" where
  "update_where q f d = d\<lparr>rows := map (\<lambda>r. if selected q r then f r else r) (rows d)\<rparr>"

text \<open>UPDATE tasks SET status = ? WHERE id = ? AND user_id = ?\<close>

definition update_status :: "sqlval \<Rightarrow> nat \<Rightarrow> nat \<Rightarrow> db \<Rightarrow> db" where
  "update_status s task_id uid d =
     update_where (own_task task_id uid) (\<lambda>r. r\<lparr>status := text_affinity s\<rparr>) d"

text \<open>UPDATE tasks SET title=?, description=?, due_date=?, priority=?, category=?
  WHERE id=? AND user_id = ?. NOT NULL is checked on the rows that are updated.\<close>

fun update_fields :: "sqlval list \<Rightarrow> nat \<Rightarrow> nat \<Rightarrow> db \<Rightarrow> exn + db" where
  "update_fields [t, de, du, p, c] task_id uid d =
     (case text_affinity t of
        None \<Rightarrow>
          (if list_ex (selected (own_task task_id uid)) (rows d)
           then Inl IntegrityError else Inr d)
      | Some ti \<Rightarrow>
          Inr (update_where (own_task task_id uid)
                 (\<lambda>r. r\<lparr>title := ti, description := text_affinity de,
                         due_date := text_affinity du, priority := text_affinity p,
                         category := text_affinity c\<rparr>) d))"
| "update_fields vs task_id uid d = Inl InterfaceError"

definition update_values :: "json \<Rightarrow> exn + json list" where
  "update_values data =
     collect [py_getitem data ''title'',
              py_getitem data ''description'',
              py_getitem data ''due_date'',
              py_getitem data ''priority'',
              py_getitem data ''category'']"

text \<open>The view. The parameters of either statement are bound in the order of the
  question marks: the values of the payload first, then the task id from the URL, a
  Python int, which raises OverflowError when it does not fit 64 bits. The view catches
  nothing.\<close>

definition update_task :: "nat \<Rightarrow> nat \<Rightarrow> json \<Rightarrow> db \<Rightarrow> response \<times> db" where
  "update_task uid task_id data d =
     (case status_only data of
        Inl e \<Rightarrow> (Unhandled e, d)
      | Inr True \<Rightarrow>
          (case py_getitem data ''status'' of
             Inl e \<Rightarrow> (Unhandled e, d)
           | Inr j \<Rightarrow>
               (case bind_param j of
                  Inl e \<Rightarrow> (Unhandled e, d)
                | Inr s \<Rightarrow>
                    (case bind_param (JInt (int task_id)) of
                       Inl e \<Rightarrow> (Unhandled e, d)
                     | Inr i \<Rightarrow> (Response Success 200, update_status s task_id uid d))))
      | Inr False \<Rightarrow>
          (case update_values data of
             Inl e \<Rightarrow> (Unhandled e, d)
           | Inr js \<Rightarrow>
               (case bind_params js of
                  Inl e \<Rightarrow> (Unhandled e, d)
                | Inr vs \<Rightarrow>
                    (case bind_param (JInt (int task_id)) of
                       Inl e \<Rightarrow> (Unhandled e, d)
                     | Inr i \<Rightarrow>
                         (case update_fields vs task_id uid d of
                            Inl e \<Rightarrow> (Unhandled e, d)
                          | Inr d' \<Rightarrow> (Response Success 200, d'))))))"

subsection \<open>DELETE /api/tasks/<task_id> and DELETE /api/tasks/clear_trash\<close>

definition delete_where :: "clause \<Rightarrow> db \<Rightarrow> db" where
  "delete_where q d = d\<lparr>rows := filter (\<lambda>r. \<not> selected q r) (rows d)\<rparr>"

text \<open>DELETE FROM tasks WHERE id = ? AND user_id = ?, with the task id of the URL bound
  first; the view catches nothing.\<close>

definition hard_delete_single_task :: "nat \<Rightarrow> nat \<Rightarrow> db \<Rightarrow> response \<times> db" where
  "hard_delete_single_task uid task_id d =
     (case bind_param (JInt (int task_id)) of
        Inl e \<Rightarrow> (Unhandled e, d)
      | Inr i \<Rightarrow> (Response Success 200, delete_where (own_task task_id uid) d))"

definition clear_trash :: "nat \<Rightarrow> db \<Rightarrow> response \<times> db" where
  "clear_trash uid d =
     (Response Success 200, delete_where (And (Col_eq Status ''deleted'') (User_id_eq uid)) d)"

section \<open>The page's script\<close>

text \<open>
  The three functions of the page that change a status. Each gives the body it PUTs to
  /api/tasks/<id>, or \<open>None\<close> when it returns without a request. \<open>allTasks\<close> is the
  page's copy of the rows that /api/alltasks sent last.
\<close>

definition toggleTask :: "task list \<Rightarrow> nat \<Rightarrow> json option" where
  "toggleTask allTasks i =
     (case find (\<lambda>t. id_col t = i) allTasks of
        None \<Rightarrow> None
      | Some t \<Rightarrow>
          (if status t = Some ''deleted'' then None
           else Some (JObj [(''status'',
                  JStr (if status t = Some ''completed'' then ''pending'' else ''completed''))])))"

definition deleteTask :: "bool \<Rightarrow> json option" where
  "deleteTask confirmed =
     (if \<not> confirmed then None else Some (JObj [(''status'', JStr ''deleted'')]))"

definition restoreTask :: "json option" where
  "restoreTask = Some (JObj [(''status'', JStr ''pending'')])"

text \<open>The store after the request of such a function, if it made one.\<close>

definition put_request :: "nat \<Rightarrow> nat \<Rightarrow> json option \<Rightarrow> db \<Rightarrow> db" where
  "put_request uid i req d =
     (case req of None \<Rightarrow> d | Some data \<Rightarrow> snd (update_task uid i data d))"

section \<open>The state machine of the specification\<close>

text \<open>
  The transitions the specification allows, in its words: pending and completed toggle
  into each other, pending and completed can be moved to deleted, and deleted is restored
  to pending.
\<close>

definition spec_transition :: "string \<Rightarrow> string \<Rightarrow> bool" where
  "spec_transition s s' \<longleftrightarrow>
     (s = ''pending'' \<and> s' = ''completed'') \<or> (s = ''completed'' \<and> s' = ''pending'') \<or>
     (s = ''pending'' \<and> s' = ''deleted'') \<or> (s = ''completed'' \<and> s' = ''deleted'') \<or>
     (s = ''deleted'' \<and> s' = ''pending'')"

section \<open>Stores used as examples\<close>

definition new_db :: db where
  "new_db = \<lparr>rows = [], seq = 0\<rparr>"

definition sample_row ::
  "nat \<Rightarrow> nat \<Rightarrow> string option \<Rightarrow> string \<Rightarrow> string \<Rightarrow> string \<Rightarrow> string \<Rightarrow> task" where
  "sample_row i u du p c s at =
     \<lparr>id_col = i, title = ''t'', description = Some [], due_date = du, priority = Some p,
      category = Some c, status = Some s, created_at = at, user_id = u\<rparr>"

text \<open>Three tasks of user 1, one in each status, and a deleted task of user 2.\<close>

definition sample_db :: db where
  "sample_db =
     \<lparr>rows =
        [sample_row 1 1 (Some ''2024-05-01'') ''urgent'' ''travail'' ''pending''
           ''2024-01-01 09:00:00'',
         sample_row 2 1 None ''important'' ''personnel'' ''completed'' ''2024-01-02 09:00:00'',
         sample_row 3 1 (Some ''2024-03-01'') ''standard'' ''sport'' ''deleted''
           ''2024-01-03 09:00:00'',
         sample_row 4 2 (Some ''2024-04-01'') ''urgent'' ''travail'' ''deleted''
           ''2024-01-04 09:00:00''],
      seq = 4\<rparr>"

text \<open>The store after user 1 has created one task with a title only.\<close>

definition one_task_db :: db where
  "one_task_db =
     snd (create_task 1 ''2024-01-01 10:00:00'' (JObj [(''title'', JStr ''x'')]) new_db)"

section \<open>Properties of the sort and of the WHERE clauses\<close>

lemmas run_simps = create_task_def create_values_def next_id_def new_db_def
  update_task_def update_values_def status_only_def update_status_def update_where_def
  own_task_def
  hard_delete_single_task_def clear_trash_def delete_where_def selected_def
  list_tasks_def get_tasks_def get_all_tasks_def args_get_def status_clause_def
  order_by_def row_le_def coalesce_due_def Let_def sample_db_def sample_row_def



lemma set_insort_row: "set (insort_row x xs) = insert x (set xs)"
  by (induction xs) auto

lemma set_order_by: "set (order_by xs) = set xs"
  by (induction xs) (auto simp: order_by_def set_insort_row)





lemma sql_and_True: "sql_and a b = Some True \<longleftrightarrow> a = Some True \<and> b = Some True"
  by (cases "(a, b)" rule: sql_and.cases) auto

lemma selected_And: "selected (And p q) r \<longleftrightarrow> selected p r \<and> selected q r"
  by (simp add: selected_def sql_and_True)

lemma selected_User_id_eq: "selected (User_id_eq u) r \<longleftrightarrow> user_id r = u"
  by (simp add: selected_def)

lemma selected_Id_eq: "selected (Id_eq i) r \<longleftrightarrow> id_col r = i"
  by (simp add: selected_def)

lemma selected_Col_eq: "selected (Col_eq c v) r \<longleftrightarrow> column c r = Some v"
  by (auto simp: selected_def split: option.splits)

lemma selected_Col_ne: "selected (Col_ne c v) r \<longleftrightarrow> (\<exists>x. column c r = Some x \<and> x \<noteq> v)"
  by (auto simp: selected_def split: option.splits)

lemma selected_own_task: "selected (own_task i u) r \<longleftrightarrow> id_col r = i \<and> user_id r = u"
  by (simp add: own_task_def selected_And selected_Id_eq selected_User_id_eq)

lemma selected_status_clause:
  "selected (status_clause sf) r \<longleftrightarrow>
     (\<exists>s. status r = Some s \<and>
          (if sf = ''deleted'' \<or> sf = ''pending'' \<or> sf = ''completed'' then s = sf
           else s \<noteq> ''deleted''))"
  by (auto simp: status_clause_def selected_Col_eq selected_Col_ne)

lemma get_tasks_order_by:
  "get_tasks uid args d =
     order_by (filter (\<lambda>r. user_id r = uid
        \<and> selected (status_clause (args_get args ''filter'' ''all'')) r
        \<and> (args_get args ''category_filter'' ''all'' = ''all''
             \<or> category r = Some (args_get args ''category_filter'' ''all''))
        \<and> (args_get args ''priority_filter'' ''all'' = ''all''
             \<or> priority r = Some (args_get args ''priority_filter'' ''all''))) (rows d))"
  unfolding get_tasks_def Let_def
  by (rule arg_cong [where f = order_by], rule filter_cong)
     (auto simp: selected_And selected_User_id_eq selected_Col_eq)

lemma list_tasks_order_by:
  "list_tasks uid sf cf pf d =
     order_by (filter (\<lambda>r. user_id r = uid \<and> selected (status_clause sf) r
        \<and> (cf = ''all'' \<or> category r = Some cf)
        \<and> (pf = ''all'' \<or> priority r = Some pf)) (rows d))"
  by (simp add: list_tasks_def get_tasks_order_by args_get_def)

lemma get_tasks_list_tasks:
  "get_tasks uid args d =
     list_tasks uid (args_get args ''filter'' ''all'')
       (args_get args ''category_filter'' ''all'') (args_get args ''priority_filter'' ''all'') d"
  by (simp add: list_tasks_order_by get_tasks_order_by)

lemma set_list_tasks:
  "set (list_tasks uid sf cf pf d) =
     {r \<in> set (rows d). user_id r = uid \<and> selected (status_clause sf) r
        \<and> (cf = ''all'' \<or> category r = Some cf)
        \<and> (pf = ''all'' \<or> priority r = Some pf)}"
  by (auto simp: list_tasks_order_by set_order_by)

section \<open>Composition of the filters\<close>

text \<open>
  C8. The three filters of List compose conjunctively: a row is in the listing exactly
  when it is a row of the table owned by the caller, it satisfies the status condition
  of \<open>status_filter\<close> (status deleted for \<open>deleted\<close>, pending for \<open>pending\<close>, completed
  for \<open>completed\<close>, and for any other value, \<open>all\<close> among them, a status that is a text
  other than deleted), its category equals \<open>category_filter\<close> unless that is \<open>all\<close>, and
  its priority equals \<open>priority_filter\<close> unless that is \<open>all\<close>.
\<close>

theorem filters_compose_conjunctively:
  "r \<in> set (list_tasks owner sf cf pf d) \<longleftrightarrow>
     r \<in> set (rows d) \<and> user_id r = owner \<and>
     (sf = ''deleted'' \<and> status r = Some ''deleted'' \<or>
      sf = ''pending'' \<and> status r = Some ''pending'' \<or>
      sf = ''completed'' \<and> status r = Some ''completed'' \<or>
      sf \<noteq> ''deleted'' \<and> sf \<noteq> ''pending'' \<and> sf \<noteq> ''completed'' \<and>
        (\<exists>s. status r = Some s \<and> s \<noteq> ''deleted'')) \<and>
     (cf = ''all'' \<or> category r = Some cf) \<and>
     (pf = ''all'' \<or> priority r = Some pf)"
  by (auto simp: set_list_tasks selected_status_clause)

theorem filters_compose_conjunctively_witness:
  "sample_row 1 1 (Some ''2024-05-01'') ''urgent'' ''travail'' ''pending'' ''2024-01-01 09:00:00''
     \<in> set (list_tasks 1 ''pending'' ''travail'' ''all'' sample_db) \<and>
   sample_row 1 1 (Some ''2024-05-01'') ''urgent'' ''travail'' ''pending'' ''2024-01-01 09:00:00''
     \<notin> set (list_tasks 1 ''pending'' ''travail'' ''standard'' sample_db) \<and>
   sample_row 1 1 (Some ''2024-05-01'') ''urgent'' ''travail'' ''pending'' ''2024-01-01 09:00:00''
     \<notin> set (list_tasks 1 ''pending'' ''sport'' ''all'' sample_db) \<and>
   sample_row 1 1 (Some ''2024-05-01'') ''urgent'' ''travail'' ''pending'' ''2024-01-01 09:00:00''
     \<notin> set (list_tasks 1 ''completed'' ''travail'' ''all'' sample_db) \<and>
   sample_row 1 1 (Some ''2024-05-01'') ''urgent'' ''travail'' ''pending'' ''2024-01-01 09:00:00''
     \<notin> set (list_tasks 1 ''deleted'' ''all'' ''all'' sample_db) \<and>
   sample_row 1 1 (Some ''2024-05-01'') ''urgent'' ''travail'' ''pending'' ''2024-01-01 09:00:00''
     \<in> set (list_tasks 1 ''all'' ''all'' ''all'' sample_db) \<and>
   sample_row 1 1 (Some ''2024-05-01'') ''urgent'' ''travail'' ''pending'' ''2024-01-01 09:00:00''
     \<notin> set (list_tasks 2 ''all'' ''all'' ''all'' sample_db)"
  using filters_compose_conjunctively
      [of "sample_row 1 1 (Some ''2024-05-01'') ''urgent'' ''travail'' ''pending''
             ''2024-01-01 09:00:00''" 1 "''pending''" "''travail''" "''all''" sample_db]
    filters_compose_conjunctively
      [of "sample_row 1 1 (Some ''2024-05-01'') ''urgent'' ''travail'' ''pending''
             ''2024-01-01 09:00:00''" 1 "''pending''" "''travail''" "''standard''" sample_db]
    filters_compose_conjunctively
      [of "sample_row 1 1 (Some ''2024-05-01'') ''urgent'' ''travail'' ''pending''
             ''2024-01-01 09:00:00''" 1 "''pending''" "''sport''" "''all''" sample_db]
    filters_compose_conjunctively
      [of "sample_row 1 1 (Some ''2024-05-01'') ''urgent'' ''travail'' ''pending''
             ''2024-01-01 09:00:00''" 1 "''completed''" "''travail''" "''all''" sample_db]
    filters_compose_conjunctively
      [of "sample_row 1 1 (Some ''2024-05-01'') ''urgent'' ''travail'' ''pending''
             ''2024-01-01 09:00:00''" 1 "''deleted''" "''all''" "''all''" sample_db]
    filters_compose_conjunctively
      [of "sample_row 1 1 (Some ''2024-05-01'') ''urgent'' ''travail'' ''pending''
             ''2024-01-01 09:00:00''" 1 "''all''" "''all''" "''all''" sample_db]
    filters_compose_conjunctively
      [of "sample_row 1 1 (Some ''2024-05-01'') ''urgent'' ''travail'' ''pending''
             ''2024-01-01 09:00:00''" 2 "''all''" "''all''" "''all''" sample_db]
  by (simp add: sample_db_def sample_row_def)

section \<open>Properties of the statements that change the table\<close>

lemma update_where_none:
  "\<not> (\<exists>r \<in> set (rows d). selected q r) \<Longrightarrow> update_where q f d = d"
proof -
  assume a: "\<not> (\<exists>r \<in> set (rows d). selected q r)"
  have "map (\<lambda>r. if selected q r then f r else r) (rows d) = rows d"
    using a by (induction "rows d") (auto simp: map_idI)
  then show ?thesis by (simp add: update_where_def)
qed

lemma delete_where_none:
  "\<not> (\<exists>r \<in> set (rows d). selected q r) \<Longrightarrow> delete_where q d = d"
  by (simp add: delete_where_def)

lemma filter_update_where:
  assumes "\<And>r. selected q r \<Longrightarrow> \<not> P r \<and> \<not> P (f r)"
  shows "filter P (rows (update_where q f d)) = filter P (rows d)"
proof -
  have "filter P (map (\<lambda>r. if selected q r then f r else r) rs) = filter P rs" for rs
    using assms by (induction rs) auto
  then show ?thesis by (simp add: update_where_def)
qed

lemma filter_delete_where:
  assumes "\<And>r. selected q r \<Longrightarrow> \<not> P r"
  shows "filter P (rows (delete_where q d)) = filter P (rows d)"
proof -
  have "filter P (filter (\<lambda>r. \<not> selected q r) rs) = filter P rs" for rs
    using assms by (induction rs) auto
  then show ?thesis by (simp add: delete_where_def)
qed

lemma update_fields_Inr:
  assumes "update_fields vs i u d = Inr d'"
  shows "d' = d \<or> (\<exists>f. (\<forall>r. id_col (f r) = id_col r \<and> user_id (f r) = user_id r
                           \<and> status (f r) = status r \<and> created_at (f r) = created_at r)
                  \<and> d' = update_where (own_task i u) f d)"
proof (cases "(vs, i, u, d)" rule: update_fields.cases)
  case (1 t de du p c task_id uid d0)
  show ?thesis
  proof (cases "text_affinity t")
    case None
    with 1 assms show ?thesis by (auto split: if_splits)
  next
    case (Some ti)
    let ?f = "\<lambda>r. r\<lparr>title := ti, description := text_affinity de,
                         due_date := text_affinity du, priority := text_affinity p,
                         category := text_affinity c\<rparr>"
    from 1 Some assms have "d' = update_where (own_task i u) ?f d" by simp
    then show ?thesis
      by (intro disjI2 exI [where x = ?f]) simp
  qed
qed (use assms in auto)

lemma update_fields_none:
  assumes "\<not> (\<exists>r \<in> set (rows d). selected (own_task i u) r)"
  shows "update_fields [t, de, du, p, c] i u d = Inr d"
  using assms by (auto simp: update_where_none list_ex_iff split: option.splits)

lemma bind_task_id:
  "bind_param (JInt (int i)) = (if i < 2 ^ 63 then Inr (Integer (int i)) else Inl OverflowError)"
proof -
  have "int i < 2 ^ 63 \<longleftrightarrow> i < 2 ^ 63"
    by (metis of_nat_less_iff of_nat_numeral of_nat_power)
  moreover have "- (2 ^ 63) \<le> int i"
    by (rule order_trans [where y = 0]) simp_all
  ultimately show ?thesis by simp
qed

lemma hard_delete_cases:
  "hard_delete_single_task u i d =
     (if i < 2 ^ 63 then (Response Success 200, delete_where (own_task i u) d)
      else (Unhandled OverflowError, d))"
  by (simp add: hard_delete_single_task_def bind_task_id del: bind_param.simps)

lemma update_task_cases:
  "snd (update_task u i data d) = d \<or>
   (\<exists>f. (\<forall>r. id_col (f r) = id_col r \<and> user_id (f r) = user_id r)
        \<and> snd (update_task u i data d) = update_where (own_task i u) f d)"
proof -
  have A: "\<exists>f. (\<forall>r. id_col (f r) = id_col r \<and> user_id (f r) = user_id r)
        \<and> update_status s i u d = update_where (own_task i u) f d" for s
    unfolding update_status_def
    by (rule exI [where x = "\<lambda>r. r\<lparr>status := text_affinity s\<rparr>"]) simp
  show ?thesis
    unfolding update_task_def
    using A by (auto split: sum.splits bool.splits dest!: update_fields_Inr)
qed

lemma insert_task_Inr:
  assumes "insert_task vs u now d = Inr d'"
  shows "\<exists>r. rows d' = rows d @ [r] \<and> user_id r = u \<and> created_at r = now
            \<and> id_col r = next_id d
            \<and> (\<exists>t de du p c s. vs = [t, de, du, p, c, s] \<and> status r = text_affinity s
                  \<and> Some (title r) = text_affinity t)"
  using assms
  by (cases "(vs, u, now, d)" rule: insert_task.cases) (auto split: option.splits)

lemma create_task_rows:
  "snd (create_task u now data d) = d \<or>
   (\<exists>r. user_id r = u \<and> rows (snd (create_task u now data d)) = rows d @ [r])"
  unfolding create_task_def
  by (auto split: sum.splits bool.splits dest!: insert_task_Inr)

section \<open>Cross-account isolation\<close>

text \<open>
  C9. For two distinct accounts \<open>x\<close> and \<open>y\<close>: a listing requested by \<open>x\<close> (with any
  filters, and the unfiltered listing too) holds no row owned by \<open>y\<close>, and after Create,
  Update or SetStatus (both are \<^verbatim>\<open>update_task\<close>), HardDelete and EmptyTrash issued by
  \<open>x\<close>, with any payload and any task id, the rows owned by \<open>y\<close> are the same rows in the
  same order as before. Nothing is assumed about the ids, so this covers a store in which
  the same id value occurs under both accounts.
\<close>

theorem cross_account_isolation:
  assumes "x \<noteq> y"
  shows "(\<forall>r \<in> set (list_tasks x sf cf pf d). user_id r \<noteq> y) \<and>
    (\<forall>r \<in> set (get_all_tasks x d). user_id r \<noteq> y) \<and>
    filter (\<lambda>r. user_id r = y) (rows (snd (create_task x now data d)))
      = filter (\<lambda>r. user_id r = y) (rows d) \<and>
    filter (\<lambda>r. user_id r = y) (rows (snd (update_task x i data d)))
      = filter (\<lambda>r. user_id r = y) (rows d) \<and>
    filter (\<lambda>r. user_id r = y) (rows (snd (hard_delete_single_task x i d)))
      = filter (\<lambda>r. user_id r = y) (rows d) \<and>
    filter (\<lambda>r. user_id r = y) (rows (snd (clear_trash x d)))
      = filter (\<lambda>r. user_id r = y) (rows d)"
proof (intro conjI)
  show "\<forall>r \<in> set (list_tasks x sf cf pf d). user_id r \<noteq> y"
    using assms by (simp add: set_list_tasks)
  show "\<forall>r \<in> set (get_all_tasks x d). user_id r \<noteq> y"
    using assms by (simp add: get_all_tasks_def set_order_by selected_User_id_eq)
  show "filter (\<lambda>r. user_id r = y) (rows (snd (create_task x now data d)))
      = filter (\<lambda>r. user_id r = y) (rows d)"
    using assms create_task_rows [of x now data d] by auto
  show "filter (\<lambda>r. user_id r = y) (rows (snd (update_task x i data d)))
      = filter (\<lambda>r. user_id r = y) (rows d)"
  proof -
    have "filter (\<lambda>r. user_id r = y) (rows (update_where (own_task i x) f d))
        = filter (\<lambda>r. user_id r = y) (rows d)"
      if "\<forall>r. id_col (f r) = id_col r \<and> user_id (f r) = user_id r" for f
      using assms that by (intro filter_update_where) (simp add: selected_own_task)
    then show ?thesis
      using update_task_cases [of x i data d] by auto
  qed
  show "filter (\<lambda>r. user_id r = y) (rows (snd (hard_delete_single_task x i d)))
      = filter (\<lambda>r. user_id r = y) (rows d)"
  proof -
    have "filter (\<lambda>r. user_id r = y) (rows (delete_where (own_task i x) d))
        = filter (\<lambda>r. user_id r = y) (rows d)"
      using assms by (intro filter_delete_where) (simp add: selected_own_task)
    then show ?thesis by (simp add: hard_delete_cases)
  qed
  show "filter (\<lambda>r. user_id r = y) (rows (snd (clear_trash x d)))
      = filter (\<lambda>r. user_id r = y) (rows d)"
    using assms unfolding clear_trash_def snd_conv
    by (intro filter_delete_where) (simp add: selected_And selected_User_id_eq)
qed

theorem cross_account_isolation_witness:
  "(1::nat) \<noteq> 2 \<and>
   rows (snd (hard_delete_single_task 1 7
     \<lparr>rows = [sample_row 7 1 None ''urgent'' ''sport'' ''pending'' ''2024-01-01 09:00:00'',
              sample_row 7 2 None ''urgent'' ''sport'' ''pending'' ''2024-01-02 09:00:00''],
      seq = 7\<rparr>))
     = [sample_row 7 2 None ''urgent'' ''sport'' ''pending'' ''2024-01-02 09:00:00''] \<and>
   filter (\<lambda>r. user_id r = 2) (rows (snd (hard_delete_single_task 1 7
     \<lparr>rows = [sample_row 7 1 None ''urgent'' ''sport'' ''pending'' ''2024-01-01 09:00:00'',
              sample_row 7 2 None ''urgent'' ''sport'' ''pending'' ''2024-01-02 09:00:00''],
      seq = 7\<rparr>)))
     = [sample_row 7 2 None ''urgent'' ''sport'' ''pending'' ''2024-01-02 09:00:00'']"
  using cross_account_isolation [of 1 2 "''all''" "''all''" "''all''"
      "\<lparr>rows = [sample_row 7 1 None ''urgent'' ''sport'' ''pending'' ''2024-01-01 09:00:00'',
              sample_row 7 2 None ''urgent'' ''sport'' ''pending'' ''2024-01-02 09:00:00''],
      seq = 7\<rparr>" "''2024-01-03 09:00:00''" JNull 7]
  by (simp add: run_simps)

section \<open>Emptying the trash\<close>

text \<open>
  C7, as amended. For every owner, EmptyTrash removes exactly the rows that are owned by
  the owner and have status deleted, keeps every other row (in any other status, or of
  any other account) as it is and in place, never fails, and answers with the success
  marker \<^verbatim>\<open>{'success': True}\<close> and code 200. It does not return the number of rows
  purged.
\<close>

theorem clear_trash_purges_owner_deleted:
  "clear_trash owner d =
     (Response Success 200,
      d\<lparr>rows := filter (\<lambda>r. \<not> (user_id r = owner \<and> status r = Some ''deleted'')) (rows d)\<rparr>)"
proof -
  have "filter (\<lambda>r. \<not> selected (And (Col_eq Status ''deleted'') (User_id_eq owner)) r) (rows d)
      = filter (\<lambda>r. \<not> (user_id r = owner \<and> status r = Some ''deleted'')) (rows d)"
    by (rule filter_cong) (auto simp: selected_And selected_User_id_eq selected_Col_eq)
  then show ?thesis
    by (simp add: clear_trash_def delete_where_def)
qed

theorem clear_trash_purges_owner_deleted_witness:
  "map id_col (rows (snd (clear_trash 1 sample_db))) = [1, 2, 4]"
  using clear_trash_purges_owner_deleted [of 1 sample_db]
  by (simp add: sample_db_def sample_row_def)

text \<open>
  The claim as stated fails: the answer is the same success marker when one row is purged
  and when none is, so it is not the count of purged rows.
\<close>

theorem clear_trash_no_count:
  "fst (clear_trash 1 sample_db) = Response Success 200 \<and>
   fst (clear_trash 1 new_db) = Response Success 200 \<and>
   length (rows sample_db) - length (rows (snd (clear_trash 1 sample_db))) = 1 \<and>
   length (rows new_db) - length (rows (snd (clear_trash 1 new_db))) = 0"
  by (simp add: run_simps)

section \<open>Operations on a task that is absent or owned by someone else\<close>

text \<open>
  C4, as amended. If the store holds no row with the given id owned by the caller, then
  SetStatus, Update and HardDelete leave the store unchanged, whatever the payload, and
  none of them reports a not-found error. When the task id fits 64 bits (it is below
  2^63), HardDelete answers with the success marker, and so do SetStatus and Update
  whenever the values of the payload can be bound as parameters. When the task id is
  larger, binding it raises OverflowError, which the views do not catch.
\<close>

theorem absent_task_reports_success:
  assumes "\<not> (\<exists>r \<in> set (rows d). id_col r = i \<and> user_id r = u)"
  shows "hard_delete_single_task u i d =
      (if i < 2 ^ 63 then Response Success 200 else Unhandled OverflowError, d) \<and>
    snd (update_task u i data d) = d \<and>
    (\<forall>j s. bind_param j = Inr s \<longrightarrow>
       update_task u i (JObj [(''status'', j)]) d =
         (if i < 2 ^ 63 then Response Success 200 else Unhandled OverflowError, d)) \<and>
    (\<forall>t de du p c vs. bind_params [t, de, du, p, c] = Inr vs \<longrightarrow>
       update_task u i (JObj [(''title'', t), (''description'', de), (''due_date'', du),
         (''priority'', p), (''category'', c)]) d =
         (if i < 2 ^ 63 then Response Success 200 else Unhandled OverflowError, d))"
proof -
  have none: "\<not> (\<exists>r \<in> set (rows d). selected (own_task i u) r)"
    using assms by (simp add: selected_own_task)
  have upd: "update_where (own_task i u) f d = d" for f
    using none by (rule update_where_none)
  have 1: "hard_delete_single_task u i d =
      (if i < 2 ^ 63 then Response Success 200 else Unhandled OverflowError, d)"
    using none by (simp add: hard_delete_cases delete_where_none)
  have 2: "snd (update_task u i data d) = d"
    using update_task_cases [of u i data d] upd by auto
  have 3: "update_task u i (JObj [(''status'', j)]) d =
         (if i < 2 ^ 63 then Response Success 200 else Unhandled OverflowError, d)"
    if "bind_param j = Inr s" for j s
    using that upd
    by (simp add: update_task_def status_only_def update_status_def bind_task_id
        del: bind_param.simps)
  have 4: "update_task u i (JObj [(''title'', t), (''description'', de), (''due_date'', du),
         (''priority'', p), (''category'', c)]) d =
         (if i < 2 ^ 63 then Response Success 200 else Unhandled OverflowError, d)"
    if "bind_params [t, de, du, p, c] = Inr vs" for t de du p c vs
  proof -
    from that obtain a b c' e f where vs: "vs = [a, b, c', e, f]"
      by (auto split: sum.splits)
    have "update_fields vs i u d = Inr d"
      unfolding vs using none by (rule update_fields_none)
    with that show ?thesis
      by (simp add: update_task_def status_only_def update_values_def bind_task_id
          del: bind_param.simps bind_params.simps)
  qed
  from 1 2 3 4 show ?thesis by blast
qed

theorem absent_task_reports_success_witness:
  "\<not> (\<exists>r \<in> set (rows sample_db). id_col r = 4 \<and> user_id r = 1) \<and>
   hard_delete_single_task 1 4 sample_db = (Response Success 200, sample_db) \<and>
   update_task 1 4 (JObj [(''status'', JStr ''pending'')]) sample_db
     = (Response Success 200, sample_db) \<and>
   \<not> (\<exists>r \<in> set (rows sample_db). id_col r = 2 ^ 63 \<and> user_id r = 1) \<and>
   hard_delete_single_task 1 (2 ^ 63) sample_db = (Unhandled OverflowError, sample_db) \<and>
   update_task 1 (2 ^ 63) (JObj [(''status'', JStr ''pending'')]) sample_db
     = (Unhandled OverflowError, sample_db)"
  using absent_task_reports_success [of sample_db 4 1 JNull]
    absent_task_reports_success [of sample_db "2 ^ 63" 1 JNull]
  by (simp add: sample_db_def sample_row_def)

text \<open>
  The claim as stated fails: on the empty store, where no task exists, the three
  operations answer with the success marker.
\<close>

theorem absent_task_no_not_found_error:
  "hard_delete_single_task 1 7 new_db = (Response Success 200, new_db) \<and>
   update_task 1 7 (JObj [(''status'', JStr ''completed'')]) new_db
     = (Response Success 200, new_db) \<and>
   update_task 1 7 (JObj [(''title'', JStr ''t''), (''description'', JStr ''d''),
       (''due_date'', JNull), (''priority'', JStr ''urgent''), (''category'', JStr ''sport'')])
     new_db = (Response Success 200, new_db)"
  by (simp add: run_simps)

section \<open>Creating a task\<close>

lemma create_values_JObj:
  "create_values (JObj kvs) =
     (case map_of kvs ''title'' of
        None \<Rightarrow> Inl KeyError
      | Some t \<Rightarrow>
          Inr [t,
               (case map_of kvs ''description'' of None \<Rightarrow> JStr [] | Some v \<Rightarrow> v),
               (case map_of kvs ''due_date'' of None \<Rightarrow> JNull | Some v \<Rightarrow> v),
               (case map_of kvs ''priority'' of None \<Rightarrow> JStr ''important'' | Some v \<Rightarrow> v),
               (case map_of kvs ''category'' of None \<Rightarrow> JStr ''personnel'' | Some v \<Rightarrow> v),
               (case map_of kvs ''status'' of None \<Rightarrow> JStr ''pending'' | Some v \<Rightarrow> v)])"
  by (simp add: create_values_def split: option.splits)

lemma create_values_Inr_JObj:
  "create_values data = Inr js \<Longrightarrow> \<exists>kvs. data = JObj kvs"
  by (cases data) (simp_all add: create_values_def)

lemma bind_params_6:
  assumes "bind_params [a, b, c, e, f, g] = Inr vs"
  shows "\<exists>a' b' c' e' f' g'. vs = [a', b', c', e', f', g'] \<and> bind_param g = Inr g'"
  using assms by (auto split: sum.splits)

text \<open>
  C3, as amended. For every successful Create call, the payload is a JSON object, exactly
  one row is added after the existing ones, its owner is the account that issued the
  call, and its status is what the payload's \<^verbatim>\<open>status\<close> field binds to: pending when the
  payload has no such field, the given text when the field is a string.
\<close>

theorem created_task_status_and_owner:
  assumes "create_task owner now data d = (Response Success 201, d')"
  shows "\<exists>kvs r s. data = JObj kvs \<and> rows d' = rows d @ [r] \<and> user_id r = owner \<and>
     bind_param (case map_of kvs ''status'' of None \<Rightarrow> JStr ''pending'' | Some j \<Rightarrow> j) = Inr s \<and>
     status r = text_affinity s \<and>
     (map_of kvs ''status'' = None \<longrightarrow> status r = Some ''pending'') \<and>
     (\<forall>v. map_of kvs ''status'' = Some (JStr v) \<longrightarrow> status r = Some v)"
proof -
  from assms obtain js vs where
    cv: "create_values data = Inr js" and bp: "bind_params js = Inr vs"
    and ins: "insert_task vs owner now d = Inr d'"
    by (auto simp: create_task_def split: if_splits sum.splits bool.splits)
  from cv obtain kvs where data: "data = JObj kvs"
    using create_values_Inr_JObj by blast
  let ?st = "case map_of kvs ''status'' of None \<Rightarrow> JStr ''pending'' | Some v \<Rightarrow> v"
  from cv data have "\<exists>t a b c e. js = [t, a, b, c, e, ?st]"
    by (cases "map_of kvs ''title''") (auto simp: create_values_JObj)
  then obtain t a b c e where js: "js = [t, a, b, c, e, ?st]"
    by blast
  from bp js obtain a' b' c' e' f' g' where
    vs: "vs = [a', b', c', e', f', g']" and g: "bind_param ?st = Inr g'"
    using bind_params_6 by blast
  from insert_task_Inr [OF ins] vs obtain r where r: "rows d' = rows d @ [r]"
    "user_id r = owner" "status r = text_affinity g'"
    by auto
  have c1: "map_of kvs ''status'' = None \<longrightarrow> status r = Some ''pending''"
    using g r(3) by auto
  have c2: "\<forall>v. map_of kvs ''status'' = Some (JStr v) \<longrightarrow> status r = Some v"
    using g r(3) by auto
  from data r g c1 c2 show ?thesis
    by (intro exI [where x = kvs] exI [where x = r] exI [where x = g']) simp
qed

theorem created_task_status_and_owner_witness:
  "create_task 1 ''2024-01-01 10:00:00'' (JObj [(''title'', JStr ''x'')]) new_db =
     (Response Success 201,
      \<lparr>rows = [\<lparr>id_col = 1, title = ''x'', description = Some [], due_date = None,
                priority = Some ''important'', category = Some ''personnel'',
                status = Some ''pending'', created_at = ''2024-01-01 10:00:00'',
                user_id = 1\<rparr>],
       seq = 1\<rparr>)"
  using created_task_status_and_owner [of 1 "''2024-01-01 10:00:00''"
      "JObj [(''title'', JStr ''x'')]" new_db]
  by (simp add: run_simps)

text \<open>
  The claim as stated fails: a payload that carries \<^verbatim>\<open>status\<close> completed is stored with
  status completed, not pending.
\<close>

theorem created_task_status_from_payload:
  "fst (create_task 1 ''2024-01-01 10:00:00''
          (JObj [(''title'', JStr ''x''), (''status'', JStr ''completed'')]) new_db)
     = Response Success 201 \<and>
   map status (rows (snd (create_task 1 ''2024-01-01 10:00:00''
          (JObj [(''title'', JStr ''x''), (''status'', JStr ''completed'')]) new_db)))
     = [Some ''completed'']"
  by (simp add: run_simps)

text \<open>
  C5. Create is to fail with a validation error exactly when the title is empty or
  missing. The view checks only that the key \<^verbatim>\<open>title\<close> is present: with the empty string
  as title it answers 201 and stores a row whose title is empty, while the page's own
  \<^verbatim>\<open>addTask\<close> refuses an empty title before sending anything.
\<close>

theorem create_task_accepts_empty_title:
  "create_task 1 ''2024-01-01 10:00:00'' (JObj [(''title'', JStr [])]) new_db =
     (Response Success 201,
      \<lparr>rows = [\<lparr>id_col = 1, title = [], description = Some [], due_date = None,
                priority = Some ''important'', category = Some ''personnel'',
                status = Some ''pending'', created_at = ''2024-01-01 10:00:00'',
                user_id = 1\<rparr>],
       seq = 1\<rparr>)"
  by (simp add: run_simps)

section \<open>The status filter\<close>

text \<open>
  C1, as amended. For every owner and every combination of category and priority filters:
  List with status filter \<open>all\<close> returns only tasks whose status is a text other than
  deleted (pending, completed, or any other text the store holds), never a task with
  status deleted; with \<open>deleted\<close> it returns only tasks with status deleted; with
  \<open>pending\<close> (resp. \<open>completed\<close>) it returns exactly the owner's tasks whose status is
  pending (resp. completed), among those that pass the category and priority filters.
\<close>

theorem list_status_filters:
  "(\<forall>r \<in> set (list_tasks owner ''all'' cf pf d). \<exists>s. status r = Some s \<and> s \<noteq> ''deleted'') \<and>
   (\<forall>r \<in> set (list_tasks owner ''deleted'' cf pf d). status r = Some ''deleted'') \<and>
   set (list_tasks owner ''pending'' cf pf d) =
     {r \<in> set (rows d). user_id r = owner \<and> status r = Some ''pending'' \<and>
        (cf = ''all'' \<or> category r = Some cf) \<and> (pf = ''all'' \<or> priority r = Some pf)} \<and>
   set (list_tasks owner ''completed'' cf pf d) =
     {r \<in> set (rows d). user_id r = owner \<and> status r = Some ''completed'' \<and>
        (cf = ''all'' \<or> category r = Some cf) \<and> (pf = ''all'' \<or> priority r = Some pf)}"
  by (auto simp: set_list_tasks selected_status_clause)

theorem list_status_filters_witness:
  "map id_col (list_tasks 1 ''all'' ''all'' ''all'' sample_db) = [1, 2] \<and>
   map id_col (list_tasks 1 ''deleted'' ''all'' ''all'' sample_db) = [3] \<and>
   map id_col (list_tasks 1 ''pending'' ''all'' ''all'' sample_db) = [1] \<and>
   map id_col (list_tasks 1 ''completed'' ''all'' ''all'' sample_db) = [2]"
  using list_status_filters [of 1 "''all''" "''all''" sample_db]
  by (simp add: run_simps)

text \<open>
  The claim as stated fails: Create stores the status it is given, and List with \<open>all\<close>
  then returns a task whose status is neither pending nor completed.
\<close>

theorem list_all_returns_other_status:
  "\<not> (\<forall>r \<in> set (list_tasks 1 ''all'' ''all'' ''all''
          (snd (create_task 1 ''2024-01-01 10:00:00''
             (JObj [(''title'', JStr ''x''), (''status'', JStr ''archived'')]) new_db))).
        status r = Some ''pending'' \<or> status r = Some ''completed'')"
  by (simp add: run_simps)

text \<open>
  C10, as amended. For every status filter outside pending, completed and deleted, List
  gives the same listing as with \<open>all\<close>: the owner's tasks whose status is a text other
  than deleted, subject to the category and priority filters. A task whose status is
  NULL is not returned.
\<close>

theorem unknown_status_filter_is_all:
  assumes "sf \<noteq> ''pending''" and "sf \<noteq> ''completed''" and "sf \<noteq> ''deleted''"
  shows "list_tasks owner sf cf pf d = list_tasks owner ''all'' cf pf d \<and>
    set (list_tasks owner sf cf pf d) =
     {r \<in> set (rows d). user_id r = owner \<and> (\<exists>s. status r = Some s \<and> s \<noteq> ''deleted'') \<and>
        (cf = ''all'' \<or> category r = Some cf) \<and> (pf = ''all'' \<or> priority r = Some pf)}"
proof -
  have "status_clause sf = status_clause ''all''"
    using assms by (simp add: status_clause_def)
  then show ?thesis
    using assms by (auto simp: list_tasks_order_by set_order_by selected_status_clause)
qed

theorem unknown_status_filter_is_all_witness:
  "''bogus'' \<noteq> ''pending'' \<and> ''bogus'' \<noteq> ''completed'' \<and> ''bogus'' \<noteq> ''deleted'' \<and>
   map id_col (list_tasks 1 ''bogus'' ''all'' ''all'' sample_db) = [1, 2] \<and>
   map id_col (list_tasks 1 ''all'' ''all'' ''all'' sample_db) = [1, 2]"
  using unknown_status_filter_is_all [of "''bogus''" 1 "''all''" "''all''" sample_db]
  by (simp add: run_simps)

text \<open>
  The claim as stated fails: a task created with \<^verbatim>\<open>status\<close> null is a task of the owner
  whose status is not deleted, and the listing does not return it.
\<close>

theorem unknown_status_filter_skips_null_status:
  "rows (snd (create_task 1 ''2024-01-01 10:00:00''
             (JObj [(''title'', JStr ''x''), (''status'', JNull)]) new_db))
     = [\<lparr>id_col = 1, title = ''x'', description = Some [], due_date = None,
                priority = Some ''important'', category = Some ''personnel'',
                status = None, created_at = ''2024-01-01 10:00:00'', user_id = 1\<rparr>] \<and>
   list_tasks 1 ''bogus'' ''all'' ''all''
     (snd (create_task 1 ''2024-01-01 10:00:00''
             (JObj [(''title'', JStr ''x''), (''status'', JNull)]) new_db)) = []"
  by (simp add: run_simps)

section \<open>The order of a listing\<close>










section \<open>Status transitions\<close>

lemma set_status_request:
  "update_task u i (JObj [(''status'', JStr v)]) d =
     (if i < 2 ^ 63
      then (Response Success 200, update_where (own_task i u) (\<lambda>x. x\<lparr>status := Some v\<rparr>) d)
      else (Unhandled OverflowError, d))"
  by (simp add: update_task_def status_only_def update_status_def bind_task_id
      del: bind_param.simps(3))

lemma same_status_update:
  assumes "distinct (map id_col (rows d))" and "r \<in> set (rows d)"
    and "id_col r = i" and "status r = Some s"
  shows "update_where (own_task i u) (\<lambda>x. x\<lparr>status := Some s\<rparr>) d = d"
proof -
  have inj: "inj_on id_col (set (rows d))"
    using assms(1) by (simp add: distinct_map)
  have "(if selected (own_task i u) x then x\<lparr>status := Some s\<rparr> else x) = x"
    if "x \<in> set (rows d)" for x
  proof (cases "selected (own_task i u) x")
    case True
    then have "id_col x = id_col r" using assms(3) by (simp add: selected_own_task)
    with inj that assms(2) have "x = r" by (auto dest: inj_onD)
    with assms(4) show ?thesis by (cases x) simp
  next
    case False
    then show ?thesis by simp
  qed
  then have "map (\<lambda>x. if selected (own_task i u) x then x\<lparr>status := Some s\<rparr> else x) (rows d)
      = rows d"
    by (simp add: map_idI)
  then show ?thesis by (simp add: update_where_def)
qed

lemma find_own_row:
  assumes "distinct (map id_col (rows d))" and "r \<in> set (rows d)"
    and "id_col r = i" and "user_id r = u"
  shows "find (\<lambda>t. id_col t = i) (get_all_tasks u d) = Some r"
proof -
  have inj: "inj_on id_col (set (rows d))"
    using assms(1) by (simp add: distinct_map)
  have mem: "r \<in> set (get_all_tasks u d)"
    using assms by (simp add: get_all_tasks_def set_order_by selected_User_id_eq)
  then obtain t where t: "find (\<lambda>t. id_col t = i) (get_all_tasks u d) = Some t"
    using assms(3) by (cases "find (\<lambda>t. id_col t = i) (get_all_tasks u d)")
      (auto simp: find_None_iff)
  then have "id_col t = i" and "t \<in> set (get_all_tasks u d)"
    by (auto simp: find_Some_iff)
  then have "t \<in> set (rows d)"
    by (simp add: get_all_tasks_def set_order_by)
  with inj assms(2,3) \<open>id_col t = i\<close> have "t = r" by (auto dest: inj_onD)
  with t show ?thesis by simp
qed

text \<open>
  C6, as amended. The server's SetStatus enforces no state machine: it stores whatever
  status text the request carries, whatever the current status is (for a task id that
  fits 64 bits, as the id of every stored row does; with a larger one the request fails
  and changes nothing). The transitions of the specification are those of the page's
  functions, run on an up-to-date task list: on a task of the caller whose status is
  pending, completed or deleted, \<^verbatim>\<open>toggleTask\<close>, \<^verbatim>\<open>deleteTask\<close> and \<^verbatim>\<open>restoreTask\<close> either
  leave the status as it is or change it along pending to completed, completed to
  pending, pending to deleted, completed to deleted or deleted to pending; \<^verbatim>\<open>toggleTask\<close>
  and \<^verbatim>\<open>deleteTask\<close> leave a deleted task deleted, so none of them takes a deleted task
  to completed; \<^verbatim>\<open>restoreTask\<close> always yields pending; and the status they store is
  pending, completed or deleted.
\<close>

theorem page_status_transitions:
  assumes "distinct (map id_col (rows d))" and "r \<in> set (rows d)"
    and "id_col r = i" and "user_id r = u" and "status r = Some s"
    and "s = ''pending'' \<or> s = ''completed'' \<or> s = ''deleted''"
  shows "(\<exists>s'. (s' = s \<or> spec_transition s s') \<and>
            (s' = ''pending'' \<or> s' = ''completed'' \<or> s' = ''deleted'') \<and>
            (s = ''deleted'' \<longrightarrow> s' = ''deleted'') \<and>
            put_request u i (toggleTask (get_all_tasks u d) i) d
              = update_where (own_task i u) (\<lambda>x. x\<lparr>status := Some s'\<rparr>) d) \<and>
         (\<exists>s'. (s' = s \<or> spec_transition s s') \<and>
            (s' = ''pending'' \<or> s' = ''completed'' \<or> s' = ''deleted'') \<and>
            (s = ''deleted'' \<longrightarrow> s' = ''deleted'') \<and>
            put_request u i (deleteTask c) d
              = update_where (own_task i u) (\<lambda>x. x\<lparr>status := Some s'\<rparr>) d) \<and>
         (''pending'' = s \<or> spec_transition s ''pending'') \<and>
         put_request u i restoreTask d
              = (if i < 2 ^ 63
                 then update_where (own_task i u) (\<lambda>x. x\<lparr>status := Some ''pending''\<rparr>) d
                 else d) \<and>
         (\<forall>v. snd (update_task u i (JObj [(''status'', JStr v)]) d)
              = (if i < 2 ^ 63
                 then update_where (own_task i u) (\<lambda>x. x\<lparr>status := Some v\<rparr>) d
                 else d))"
proof -
  note same = same_status_update [OF assms(1,2,3,5), of u]
  note found = find_own_row [OF assms(1,2,3,4)]
  have put: "put_request u i (Some (JObj [(''status'', JStr v)])) d
      = (if i < 2 ^ 63 then update_where (own_task i u) (\<lambda>x. x\<lparr>status := Some v\<rparr>) d else d)"
    for v
    by (simp add: put_request_def set_status_request)
  have sent: "\<exists>s'. (s' = s \<or> spec_transition s s') \<and>
            (s' = ''pending'' \<or> s' = ''completed'' \<or> s' = ''deleted'') \<and>
            (s = ''deleted'' \<longrightarrow> s' = ''deleted'') \<and>
            put_request u i (Some (JObj [(''status'', JStr v)])) d
              = update_where (own_task i u) (\<lambda>x. x\<lparr>status := Some s'\<rparr>) d"
    if "v = s \<or> spec_transition s v"
      and "v = ''pending'' \<or> v = ''completed'' \<or> v = ''deleted''"
      and "s = ''deleted'' \<longrightarrow> v = ''deleted''" for v
  proof (cases "i < 2 ^ 63")
    case True
    with put [of v] that show ?thesis
      by (intro exI [where x = v]) simp
  next
    case False
    with put [of v] same assms(6) show ?thesis
      by (intro exI [where x = s]) simp
  qed
  have unsent: "\<exists>s'. (s' = s \<or> spec_transition s s') \<and>
            (s' = ''pending'' \<or> s' = ''completed'' \<or> s' = ''deleted'') \<and>
            (s = ''deleted'' \<longrightarrow> s' = ''deleted'') \<and>
            put_request u i None d
              = update_where (own_task i u) (\<lambda>x. x\<lparr>status := Some s'\<rparr>) d"
    using same assms(6) by (intro exI [where x = s]) (simp add: put_request_def)
  have toggle: "\<exists>s'. (s' = s \<or> spec_transition s s') \<and>
            (s' = ''pending'' \<or> s' = ''completed'' \<or> s' = ''deleted'') \<and>
            (s = ''deleted'' \<longrightarrow> s' = ''deleted'') \<and>
            put_request u i (toggleTask (get_all_tasks u d) i) d
              = update_where (own_task i u) (\<lambda>x. x\<lparr>status := Some s'\<rparr>) d"
  proof -
    consider "s = ''deleted''" | "s = ''completed''" | "s = ''pending''"
      using assms(6) by blast
    then show ?thesis
    proof cases
      case 1
      then have "toggleTask (get_all_tasks u d) i = None"
        using found assms(5) by (simp add: toggleTask_def)
      with unsent show ?thesis by simp
    next
      case 2
      then have "toggleTask (get_all_tasks u d) i = Some (JObj [(''status'', JStr ''pending'')])"
        using found assms(5) by (simp add: toggleTask_def)
      with sent [of "''pending''"] 2 show ?thesis
        by (simp add: spec_transition_def)
    next
      case 3
      then have "toggleTask (get_all_tasks u d) i = Some (JObj [(''status'', JStr ''completed'')])"
        using found assms(5) by (simp add: toggleTask_def)
      with sent [of "''completed''"] 3 show ?thesis
        by (simp add: spec_transition_def)
    qed
  qed
  have delete: "\<exists>s'. (s' = s \<or> spec_transition s s') \<and>
            (s' = ''pending'' \<or> s' = ''completed'' \<or> s' = ''deleted'') \<and>
            (s = ''deleted'' \<longrightarrow> s' = ''deleted'') \<and>
            put_request u i (deleteTask c) d
              = update_where (own_task i u) (\<lambda>x. x\<lparr>status := Some s'\<rparr>) d"
  proof (cases c)
    case True
    have "''deleted'' = s \<or> spec_transition s ''deleted''"
      using assms(6) by (auto simp: spec_transition_def)
    from sent [of "''deleted''"] this True show ?thesis
      by (simp add: deleteTask_def)
  next
    case False
    with unsent show ?thesis
      by (simp add: deleteTask_def)
  qed
  have restore: "put_request u i restoreTask d
              = (if i < 2 ^ 63
                 then update_where (own_task i u) (\<lambda>x. x\<lparr>status := Some ''pending''\<rparr>) d
                 else d)"
    using put [of "''pending''"] by (simp add: restoreTask_def)
  have allowed: "''pending'' = s \<or> spec_transition s ''pending''"
    using assms(6) by (auto simp: spec_transition_def)
  have server: "\<forall>v. snd (update_task u i (JObj [(''status'', JStr v)]) d)
              = (if i < 2 ^ 63
                 then update_where (own_task i u) (\<lambda>x. x\<lparr>status := Some v\<rparr>) d
                 else d)"
    by (simp add: set_status_request)
  from toggle delete restore allowed server show ?thesis
    by (intro conjI)
qed

theorem page_status_transitions_witness:
  "distinct (map id_col (rows sample_db)) \<and>
   map status (rows (put_request 1 1 (toggleTask (get_all_tasks 1 sample_db) 1) sample_db))
     = [Some ''completed'', Some ''completed'', Some ''deleted'', Some ''deleted''] \<and>
   put_request 1 3 (toggleTask (get_all_tasks 1 sample_db) 3) sample_db = sample_db \<and>
   map status (rows (put_request 1 3 restoreTask sample_db))
     = [Some ''pending'', Some ''completed'', Some ''pending'', Some ''deleted'']"
  using page_status_transitions [of sample_db
      "sample_row 1 1 (Some ''2024-05-01'') ''urgent'' ''travail'' ''pending''
         ''2024-01-01 09:00:00''" 1 1 "''pending''" True]
  by (simp add: run_simps toggleTask_def restoreTask_def put_request_def)

text \<open>
  The claim as stated fails: SetStatus takes a deleted task directly to completed, and it
  stores a status outside pending, completed and deleted.
\<close>

theorem set_status_accepts_any_transition:
  "map status (rows one_task_db) = [Some ''pending''] \<and>
   map status (rows (snd (update_task 1 1 (JObj [(''status'', JStr ''deleted'')]) one_task_db)))
     = [Some ''deleted''] \<and>
   map status (rows (snd (update_task 1 1 (JObj [(''status'', JStr ''completed'')])
       (snd (update_task 1 1 (JObj [(''status'', JStr ''deleted'')]) one_task_db)))))
     = [Some ''completed''] \<and>
   \<not> spec_transition ''deleted'' ''completed'' \<and>
   map status (rows (snd (update_task 1 1 (JObj [(''status'', JStr ''archived'')]) one_task_db)))
     = [Some ''archived'']"
  by (simp add: run_simps one_task_db_def spec_transition_def)

end
